theory Spec2Isabelle
  imports Complex_Main "HOL-Library.Word"
begin

chapter \<open>The model\<close>

section \<open>Python values of \<open>tools/mdt_decoder.py\<close>\<close>

text \<open>
  A Python \<open>str\<close> is a sequence of Unicode code points, and \<open>len\<close>, slicing and
  membership count code points; a \<open>str\<close> is therefore a list of code points (natural
  numbers), not a list of 8-bit characters.  \<open>bytes\<close> is a list of 8-bit words.
\<close>

type_synonym codepoint = nat
type_synonym pystr = "nat list"
type_synonym byte = "8 word"
type_synonym pybytes = "8 word list"

definition str :: "string \<Rightarrow> pystr" where
  \<comment> \<open>a string literal of the source\<close>
  "str s = map of_char s"

text \<open>The exceptions the decoder can raise, each with the text \<open>str(e)\<close> gives.\<close>

datatype exn = ValueError pystr | ZeroDivisionError pystr | OverflowError pystr

fun exn_str :: "exn \<Rightarrow> pystr" where
  "exn_str (ValueError m) = m"
| "exn_str (ZeroDivisionError m) = m"
| "exn_str (OverflowError m) = m"

text \<open>
  The values the decoder returns: dictionaries (insertion-ordered, so association lists)
  of strings, integers, floats and booleans.  A finite float is held as the rational it
  denotes.  \<open>PNone\<close> and \<open>PList\<close> are not produced by the source; they are needed to
  render a value tree of the specification as Python data.
\<close>

datatype pyval =
    PNone
  | PBool bool
  | PInt int
  | PFloat rat
  | PStr pystr
  | PList "pyval list"
  | PDict "(pyval \<times> pyval) list"

definition key :: "string \<Rightarrow> pyval" where
  "key s = PStr (str s)"

fun dict_keys :: "pyval \<Rightarrow> pyval list" where
  "dict_keys (PDict kvs) = map fst kvs"
| "dict_keys _ = []"

fun dict_get :: "pyval \<Rightarrow> pyval \<Rightarrow> pyval option" where
  "dict_get (PDict kvs) k = map_of kvs k"
| "dict_get _ k = None"

subsection \<open>String operations used by the source\<close>

definition startswith :: "pystr \<Rightarrow> pystr \<Rightarrow> bool" where
  \<comment> \<open>\<open>s.startswith(p)\<close>\<close>
  "startswith p s = (take (length p) s = p)"

fun contains :: "pystr \<Rightarrow> pystr \<Rightarrow> bool" where
  \<comment> \<open>\<open>sub in s\<close>\<close>
  "contains sub [] = (sub = [])"
| "contains sub (c # cs) = (startswith sub (c # cs) \<or> contains sub cs)"

definition rstrip :: "pystr \<Rightarrow> pystr \<Rightarrow> pystr" where
  \<comment> \<open>\<open>s.rstrip(chars)\<close>: drops the trailing characters that occur in \<open>chars\<close>\<close>
  "rstrip chars s = rev (dropWhile (\<lambda>c. c \<in> set chars) (rev s))"

function py_range :: "int \<Rightarrow> int \<Rightarrow> int \<Rightarrow> int list" where
  \<comment> \<open>\<open>range(start, stop, step)\<close> for a positive step\<close>
  "py_range i stop step =
     (if 0 < step \<and> i < stop then i # py_range (i + step) stop step else [])"
  by pat_completeness auto
termination
  by (relation "measure (\<lambda>(i, stop, step). nat (stop - i))") auto

section \<open>The alphabet decoder\<close>

definition B64_ALPHABET :: pystr where
  "B64_ALPHABET = str ''abcdefghijklmnopqrstuvwxyzABCDEFGHIJKLMNOPQRSTUVWXYZ0123456789()''"

definition create_b64_decode_table :: "codepoint \<rightharpoonup> nat" where
  \<comment> \<open>\<open>{char: idx for idx, char in enumerate(B64_ALPHABET)}\<close>: a later pair overwrites\<close>
  "create_b64_decode_table =
     fold (\<lambda>(idx, char) m. m(char \<mapsto> idx)) (enumerate 0 B64_ALPHABET) Map.empty"

fun bin_digits :: "nat \<Rightarrow> pystr" where
  \<comment> \<open>the binary digits of \<open>n\<close> as characters, most significant first\<close>
  "bin_digits n = (if n < 2 then [48 + n] else bin_digits (n div 2) @ [48 + n mod 2])"

definition format_06b :: "nat \<Rightarrow> pystr" where
  \<comment> \<open>\<open>format(n, '06b')\<close>: binary, padded with zeros on the left to at least 6 digits\<close>
  "format_06b n = (let ds = bin_digits n in replicate (6 - length ds) 48 @ ds)"

definition int_base2 :: "pystr \<Rightarrow> exn + nat" where
  \<comment> \<open>\<open>int(s, 2)\<close> on a non-empty string of the digits 0 and 1.  Python also accepts a
      sign, blanks, underscores and a \<open>0b\<close> prefix; each of them contains a character
      other than 0 and 1, which \<open>format(n, '06b')\<close> never writes, and the model treats
      such a string as an invalid literal.\<close>
  "int_base2 s =
     (if s \<noteq> [] \<and> list_all (\<lambda>c. c = 48 \<or> c = 49) s
      then Inr (foldl (\<lambda>a c. 2 * a + (c - 48)) 0 s)
      else Inl (ValueError (str ''invalid literal for int() with base 2'')))"

definition bytearray_append :: "pybytes \<Rightarrow> nat \<Rightarrow> exn + pybytes" where
  \<comment> \<open>\<open>bytearray.append(v)\<close>\<close>
  "bytearray_append byte_data v =
     (if v < 256 then Inr (byte_data @ [of_nat v])
      else Inl (ValueError (str ''byte must be in range(0, 256)'')))"

fun bytes_loop :: "pystr \<Rightarrow> int list \<Rightarrow> pybytes \<Rightarrow> exn + pybytes" where
  \<comment> \<open>the second \<open>for\<close> loop of \<open>decode_custom_b64\<close>, over the indices of the range\<close>
  "bytes_loop binary_str [] byte_data = Inr byte_data"
| "bytes_loop binary_str (i # is) byte_data =
     (let byte_chunk = take 8 (drop (nat i) binary_str) in
      if length byte_chunk = 8 then
        (case int_base2 byte_chunk of
           Inl e \<Rightarrow> Inl e
         | Inr v \<Rightarrow>
            (case bytearray_append byte_data v of
               Inl e \<Rightarrow> Inl e
             | Inr byte_data' \<Rightarrow> bytes_loop binary_str is byte_data'))
      else bytes_loop binary_str is byte_data)"

definition decode_custom_b64 :: "pystr \<Rightarrow> exn + pybytes" where
  "decode_custom_b64 encoded_str =
     (let decode_table = create_b64_decode_table;
          padding_removed = rstrip (str ''='') encoded_str;
          binary_str =
            fold (\<lambda>char binary_str.
                    case decode_table char of
                      Some idx \<Rightarrow> binary_str @ format_06b idx
                    | None \<Rightarrow> binary_str)
                 padding_removed []
      in bytes_loop binary_str (py_range 0 (int (length binary_str) - 7) 8) [])"

subsection \<open>The alphabet decoder as the specification words it\<close>

fun position :: "'a \<Rightarrow> 'a list \<Rightarrow> nat option" where
  \<comment> \<open>the first position of an element in a list, if it occurs\<close>
  "position c [] = None"
| "position c (x # xs) = (if c = x then Some 0 else map_option Suc (position c xs))"

fun to_bits :: "nat \<Rightarrow> nat \<Rightarrow> bool list" where
  \<comment> \<open>the \<open>k\<close> low bits of \<open>n\<close>, most significant first\<close>
  "to_bits 0 n = []"
| "to_bits (Suc k) n = to_bits k (n div 2) @ [odd n]"

definition from_bits :: "bool list \<Rightarrow> nat" where
  \<comment> \<open>the number a bit string denotes, most significant bit first\<close>
  "from_bits bits = foldl (\<lambda>a b. 2 * a + (if b then 1 else 0)) 0 bits"

fun regroup8 :: "bool list \<Rightarrow> pybytes" where
  \<comment> \<open>re-slices a bit string into 8-bit groups; an incomplete final group is dropped\<close>
  "regroup8 bits =
     (if length bits < 8 then []
      else of_nat (from_bits (take 8 bits)) # regroup8 (drop 8 bits))"

definition spec_alphabet_decode :: "pystr \<Rightarrow> pybytes" where
  \<comment> \<open>a character of the alphabet gives its 6-bit position value, any other character
      is skipped; the groups are concatenated and re-sliced into bytes\<close>
  "spec_alphabet_decode s =
     regroup8 (concat (map (to_bits 6) (List.map_filter (\<lambda>c. position c B64_ALPHABET) s)))"

text \<open>
  The repository only decodes.  The encoder below is the inverse direction as the
  specification describes it: the bytes' bits are concatenated, cut into 6-bit groups, the
  last group padded with zero bits, and each group written as its alphabet symbol.
\<close>

fun regroup6 :: "bool list \<Rightarrow> nat list" where
  "regroup6 bits =
     (if bits = [] then []
      else from_bits (take 6 (bits @ replicate 5 False)) # regroup6 (drop 6 bits))"

definition spec_alphabet_encode :: "pybytes \<Rightarrow> pystr" where
  \<comment> \<open>Modelled from the spec: the alphabet encoder, which the decode-only repository does
      not contain (packing 8-bit bytes into 6-bit symbols, padding the tail).\<close>
  "spec_alphabet_encode bs =
     map (\<lambda>v. B64_ALPHABET ! v) (regroup6 (concat (map (\<lambda>b. to_bits 8 (unat b)) bs)))"

section \<open>Floating point: true division and \<open>round\<close>\<close>

text \<open>
  \<open>len(compressed_data) / len(decompressed_data)\<close> is the true division of two
  non-negative integers: the IEEE-754 double nearest to the exact quotient (ties to even),
  \<open>ZeroDivisionError\<close> for a zero divisor and \<open>OverflowError\<close> when the rounded
  quotient does not fit a double.  \<open>round(x, 2)\<close> rounds the exact value of the
  double \<open>x\<close> to two decimals (ties to even) and returns the double nearest to that
  decimal.  A finite non-negative double is held as a pair \<open>(m, t)\<close> of integers that
  denotes \<open>m * 2 ^ t\<close>; all arithmetic below is exact integer arithmetic.
\<close>

type_synonym double = "int \<times> int"

definition double_value :: "double \<Rightarrow> rat" where
  "double_value x = of_int (fst x) * 2 powi (snd x)"

fun bit_length :: "nat \<Rightarrow> nat" where
  \<comment> \<open>\<open>n.bit_length()\<close>\<close>
  "bit_length n = (if n = 0 then 0 else Suc (bit_length (n div 2)))"

definition round_half_even :: "int \<Rightarrow> int \<Rightarrow> int" where
  \<comment> \<open>the integer nearest to \<open>p / q\<close> for \<open>q > 0\<close>, ties to the even one\<close>
  "round_half_even p q =
     (let f = p div q; r = p mod q in
      if 2 * r < q then f
      else if q < 2 * r then f + 1
      else if even f then f else f + 1)"

definition binary_exponent :: "int \<Rightarrow> int \<Rightarrow> int" where
  \<comment> \<open>the \<open>e\<close> with \<open>2 ^ e \<le> p / q < 2 ^ (e + 1)\<close>, for positive \<open>p\<close> and \<open>q\<close>\<close>
  "binary_exponent p q =
     (let k = int (bit_length (nat p)) - int (bit_length (nat q)) in
      if (if 0 \<le> k then q * 2 ^ nat k \<le> p else q \<le> p * 2 ^ nat (- k)) then k else k - 1)"

definition nearest_double :: "int \<Rightarrow> int \<Rightarrow> double" where
  \<comment> \<open>\<open>p / q\<close> (\<open>p \<ge> 0\<close>, \<open>q > 0\<close>) rounded to 53 significant bits, ties to even, with
      the exponent of the unit in the last place not below that of the subnormal
      doubles; the result is not yet bounded from above\<close>
  "nearest_double p q =
     (if p = 0 then (0, 0)
      else
        let t = max (binary_exponent p q) (- 1022) - 52;
            m = (if 0 \<le> t then round_half_even p (q * 2 ^ nat t)
                 else round_half_even (p * 2 ^ nat (- t)) q)
        in (m, t))"

definition too_large :: "double \<Rightarrow> bool" where
  \<comment> \<open>the value is \<open>2 ^ 1024\<close> or more: beyond the largest finite double\<close>
  "too_large x = (2 ^ 1024 \<le> double_value x)"

definition py_truediv :: "nat \<Rightarrow> nat \<Rightarrow> exn + double" where
  \<comment> \<open>\<open>a / b\<close> on non-negative integers\<close>
  "py_truediv a b =
     (if b = 0 then Inl (ZeroDivisionError (str ''division by zero''))
      else
        let x = nearest_double (int a) (int b) in
        if too_large x
        then Inl (OverflowError (str ''integer division result too large for a float''))
        else Inr x)"

definition py_round2 :: "double \<Rightarrow> exn + double" where
  \<comment> \<open>\<open>round(x, 2)\<close> on a finite non-negative double\<close>
  "py_round2 x =
     (let (m, t) = x;
          hundredths = (if 0 \<le> t then 100 * m * 2 ^ nat t
                        else round_half_even (100 * m) (2 ^ nat (- t)));
          y = nearest_double hundredths 100
      in if too_large y
         then Inl (OverflowError (str ''rounded value too large to represent''))
         else Inr y)"

section \<open>Decompression\<close>

text \<open>
  \<open>zlib.decompress\<close> is the standard library's, not the repository's: the decoder is
  modelled over any codec.  A codec maps the compressed bytes to the decompressed bytes,
  or to the text of the \<open>zlib.error\<close> it raises.
\<close>

type_synonym codec = "pybytes \<Rightarrow> pystr + pybytes"

definition decompress_data :: "codec \<Rightarrow> pybytes \<Rightarrow> exn + pybytes" where
  "decompress_data zlib_decompress compressed_data =
     (case zlib_decompress compressed_data of
        Inr data \<Rightarrow> Inr data
      | Inl e \<Rightarrow> Inl (ValueError (str ''Decompression failed: '' @ e)))"

definition zlib_fixture :: codec where
  \<comment> \<open>A codec for concrete runs.  It is \<open>zlib.decompress\<close> at four inputs: the zlib
      stream of the empty string (an empty fixed Huffman block), the zlib stream of
      \<open>abc\<close> (a stored block), the zlib stream of forty letters \<open>a\<close> (a stored
      block: the header \<open>78 01\<close>, the block header \<open>01 28 00 d7 ff\<close>, the forty
      bytes, and their Adler-32 checksum \<open>36 eb 0f 29\<close>; 51 bytes), and the empty
      input.  Elsewhere it reports a header error, which need not be the answer of zlib;
      no theorem applies it outside the four inputs.\<close>
  "zlib_fixture bs =
     (if bs = [0x78, 0x9c, 0x03, 0x00, 0x00, 0x00, 0x00, 0x01] then Inr []
      else if bs = [0x78, 0x01, 0x01, 0x03, 0x00, 0xfc, 0xff, 0x61, 0x62, 0x63,
                    0x02, 0x4d, 0x01, 0x27] then Inr [0x61, 0x62, 0x63]
      else if bs = [0x78, 0x01, 0x01, 0x28, 0x00, 0xd7, 0xff] @ replicate 40 0x61
                    @ [0x36, 0xeb, 0x0f, 0x29] then Inr (replicate 40 0x61)
      else if bs = []
        then Inl (str ''Error -5 while decompressing data: incomplete or truncated stream'')
      else Inl (str ''Error -3 while decompressing data: incorrect header check''))"

section \<open>The placeholder deserializer\<close>

definition hex_digit :: "nat \<Rightarrow> codepoint" where
  \<comment> \<open>a digit of \<open>0123456789abcdef\<close>\<close>
  "hex_digit d = (if d < 10 then 48 + d else 87 + d)"

fun hex_digits :: "nat \<Rightarrow> nat \<Rightarrow> pystr" where
  \<comment> \<open>the \<open>k\<close> low hexadecimal digits of \<open>n\<close>, most significant first\<close>
  "hex_digits 0 n = []"
| "hex_digits (Suc k) n = hex_digits k (n div 16) @ [hex_digit (n mod 16)]"

definition unicode_escape_char :: "codepoint \<Rightarrow> pystr" where
  \<comment> \<open>the \<open>unicode_escape\<close> codec on one code point; 92 is the backslash\<close>
  "unicode_escape_char ch =
     (if ch < 256 then
        (if 32 \<le> ch \<and> ch < 127 then (if ch \<noteq> 92 then [ch] else [92, 92])
         else if ch = 9 then 92 # str ''t''
         else if ch = 10 then 92 # str ''n''
         else if ch = 13 then 92 # str ''r''
         else 92 # str ''x'' @ hex_digits 2 ch)
      else if ch < 65536 then 92 # str ''u'' @ hex_digits 4 ch
      else 92 # str ''U'' @ hex_digits 8 ch)"

definition unicode_escape :: "pystr \<Rightarrow> pystr" where
  \<comment> \<open>\<open>data.encode('unicode_escape').decode('ascii')\<close>\<close>
  "unicode_escape data = concat (map unicode_escape_char data)"

fun dict_set :: "(pyval \<times> pyval) list \<Rightarrow> pyval \<Rightarrow> pyval \<Rightarrow> (pyval \<times> pyval) list" where
  \<comment> \<open>\<open>d[k] = v\<close>: a present key keeps its place, a new key goes last\<close>
  "dict_set [] k v = [(k, v)]"
| "dict_set ((k', v') # kvs) k v =
     (if k' = k then (k, v) # kvs else (k', v') # dict_set kvs k v)"

text \<open>
  No statement of the \<open>try\<close> block of \<open>parse_ace_serialized_data\<close> can raise on a
  \<open>str\<close>: \<open>startswith\<close>, slicing, the \<open>unicode_escape\<close> codec (it escapes every code
  point), decoding its ASCII output, and the substring tests.  The \<open>except\<close> branch is
  therefore no branch of the model.
\<close>

definition parse_ace_serialized_data :: "pystr \<Rightarrow> pyval" where
  "parse_ace_serialized_data data0 =
     (let data = (if startswith [1, 0] data0 then drop 2 data0 else data0);
          result = [(key ''format'', PStr (str ''AceSerializer'')),
                    (key ''raw_data'', PStr (unicode_escape data)),
                    (key ''parsed_data'',
                     PStr (str ''Partial parsing - full AceSerializer implementation needed''))];
          result = (if contains (str ''week'') data
                    then dict_set result (key ''contains_week_info'') (PBool True) else result);
          result = (if contains (str ''objects'') data
                    then dict_set result (key ''contains_objects'') (PBool True) else result);
          result = (if contains (str ''pulls'') data
                    then dict_set result (key ''contains_pulls'') (PBool True) else result)
      in PDict result)"

section \<open>The decode pipeline\<close>

definition decode_latin1 :: "pybytes \<Rightarrow> pystr" where
  \<comment> \<open>\<open>bytes.decode('latin-1')\<close>: each byte is the code point of its value\<close>
  "decode_latin1 bs = map unat bs"

definition encoded_data :: "pystr \<Rightarrow> pystr" where
  \<comment> \<open>step 1 of \<open>decode_mdt_route_string\<close>: the leading marker is removed\<close>
  "encoded_data route_string =
     (if startswith (str ''!'') route_string then drop 1 route_string else route_string)"

definition success_result :: "nat \<Rightarrow> nat \<Rightarrow> nat \<Rightarrow> double \<Rightarrow> pyval \<Rightarrow> pyval" where
  \<comment> \<open>the dictionary of step 5\<close>
  "success_result original_length compressed_length decompressed_length ratio parsed_data =
     PDict
       [(key ''metadata'', PDict
          [(key ''original_length'', PInt (int original_length)),
           (key ''compressed_length'', PInt (int compressed_length)),
           (key ''decompressed_length'', PInt (int decompressed_length)),
           (key ''compression_ratio'', PFloat (double_value ratio))]),
        (key ''route_data'', parsed_data)]"

definition failure_result :: "pystr \<Rightarrow> pystr \<Rightarrow> pyval" where
  \<comment> \<open>the dictionary of the \<open>except\<close> branch, for the text \<open>message\<close> of the exception\<close>
  "failure_result message route_string =
     PDict
       [(key ''error'', PStr (str ''Failed to decode route string: '' @ message)),
        (key ''original_string'',
         PStr (if 100 < length route_string
               then take 100 route_string @ str ''...'' else route_string))]"

definition decode_try :: "codec \<Rightarrow> pystr \<Rightarrow> exn + pyval" where
  \<comment> \<open>the \<open>try\<close> block of \<open>decode_mdt_route_string\<close>; the progress lines it prints are
      not part of the value it returns and are left out\<close>
  "decode_try zlib_decompress route_string =
     (case decode_custom_b64 (encoded_data route_string) of
        Inl e \<Rightarrow> Inl e
      | Inr compressed_data \<Rightarrow>
     (case decompress_data zlib_decompress compressed_data of
        Inl e \<Rightarrow> Inl e
      | Inr decompressed_data \<Rightarrow>
     (let serialized_str = decode_latin1 decompressed_data;
          parsed_data = parse_ace_serialized_data serialized_str
      in
     (case py_truediv (length compressed_data) (length decompressed_data) of
        Inl e \<Rightarrow> Inl e
      | Inr x \<Rightarrow>
     (case py_round2 x of
        Inl e \<Rightarrow> Inl e
      | Inr ratio \<Rightarrow>
          Inr (success_result (length route_string) (length compressed_data)
                 (length decompressed_data) ratio parsed_data))))))"

definition decode_mdt_route_string :: "codec \<Rightarrow> pystr \<Rightarrow> pyval" where
  \<comment> \<open>\<open>except Exception as e\<close> catches every exception of the \<open>try\<close> block\<close>
  "decode_mdt_route_string zlib_decompress route_string =
     (case decode_try zlib_decompress route_string of
        Inr result \<Rightarrow> result
      | Inl e \<Rightarrow> failure_result (exn_str e) route_string)"

section \<open>The value trees and the token grammar of the specification\<close>

text \<open>
  The specification asks for a deserializer of a token grammar into value trees.  Its
  data model and the serialization it describes are written down here, to state what the
  placeholder deserializer of the source does with such a stream.  The marker bytes are
  constants of the producing library, so the grammar is a parameter, and so is the
  decimal text the library writes for a number.
\<close>

datatype Value =
    Nil
  | Boolean bool
  | Number rat
  | String pybytes
  | Table "(Value \<times> Value) list"

record grammar =
  esc :: byte
  nil_code :: byte
  true_code :: byte
  false_code :: byte
  number_open :: byte
  number_close :: byte
  string_open :: byte
  string_close :: byte
  table_open :: byte
  table_close :: byte

definition spec_escape :: "grammar \<Rightarrow> pybytes \<Rightarrow> pybytes" where
  \<comment> \<open>an escape byte inside a string payload is written twice\<close>
  "spec_escape g bs = concat (map (\<lambda>b. if b = esc g then [esc g, esc g] else [b]) bs)"

fun spec_serialize :: "grammar \<Rightarrow> (rat \<Rightarrow> pybytes) \<Rightarrow> Value \<Rightarrow> pybytes" where
  "spec_serialize g number_text Nil = [esc g, nil_code g]"
| "spec_serialize g number_text (Boolean b) =
     [esc g, if b then true_code g else false_code g]"
| "spec_serialize g number_text (Number x) =
     [esc g, number_open g] @ number_text x @ [esc g, number_close g]"
| "spec_serialize g number_text (String bs) =
     [esc g, string_open g] @ spec_escape g bs @ [esc g, string_close g]"
| "spec_serialize g number_text (Table kvs) =
     [esc g, table_open g]
     @ concat (map (\<lambda>(k, v). spec_serialize g number_text k @ spec_serialize g number_text v) kvs)
     @ [esc g, table_close g]"


fun spec_value_as_py :: "Value \<Rightarrow> pyval" where
  \<comment> \<open>a value tree as Python data: what a deserializer returning the tree would return\<close>
  "spec_value_as_py Nil = PNone"
| "spec_value_as_py (Boolean b) = PBool b"
| "spec_value_as_py (Number x) = PFloat x"
| "spec_value_as_py (String bs) = PStr (decode_latin1 bs)"
| "spec_value_as_py (Table kvs) =
     PDict (map (\<lambda>(k, v). (spec_value_as_py k, spec_value_as_py v)) kvs)"

text \<open>A sample grammar (the caret as escape byte, letters as type codes) and tree.\<close>

definition bytes_of :: "string \<Rightarrow> pybytes" where
  "bytes_of s = map of_char s"

definition sample_grammar :: grammar where
  "sample_grammar =
     \<lparr>esc = 0x5e, nil_code = 0x5a, true_code = 0x42, false_code = 0x62,
      number_open = 0x4e, number_close = 0x6e, string_open = 0x53, string_close = 0x73,
      table_open = 0x54, table_close = 0x74\<rparr>"

fun decimal_digits :: "nat \<Rightarrow> pybytes" where
  "decimal_digits n =
     (if n < 10 then [of_nat (48 + n)]
      else decimal_digits (n div 10) @ [of_nat (48 + n mod 10)])"

definition integer_text :: "rat \<Rightarrow> pybytes" where
  \<comment> \<open>the decimal text of an integral number (the sample tree has no other numbers)\<close>
  "integer_text x = (if x < 0 then [0x2d] else []) @ decimal_digits (nat \<bar>\<lfloor>x\<rfloor>\<bar>)"

definition sample_tree :: Value where
  "sample_tree = Table [(String (bytes_of ''week''), Number 1)]"

definition bitchar :: "bool \<Rightarrow> codepoint" where
  "bitchar b = (if b then 49 else 48)"

chapter \<open>Lemmas\<close>

section \<open>The alphabet decoder and the encoder\<close>

declare bin_digits.simps [simp del] regroup8.simps [simp del] regroup6.simps [simp del]
  py_range.simps [simp del] bit_length.simps [simp del]

lemma position_Some: "position c xs = Some i \<Longrightarrow> i < length xs \<and> xs ! i = c"
  by (induction xs arbitrary: i) (auto split: if_splits)

lemma position_None: "position c xs = None \<longleftrightarrow> c \<notin> set xs"
  by (induction xs) auto

lemma position_nth: "distinct xs \<Longrightarrow> i < length xs \<Longrightarrow> position (xs ! i) xs = Some i"
proof (induction xs arbitrary: i)
  case Nil then show ?case by simp
next
  case (Cons x xs)
  show ?case
  proof (cases i)
    case 0 then show ?thesis by simp
  next
    case (Suc j)
    with Cons.prems have "j < length xs" "xs ! j \<noteq> x" by auto
    with Cons Suc show ?thesis by simp
  qed
qed

lemma fold_enumerate_table:
  "distinct xs \<Longrightarrow>
   fold (\<lambda>(idx, char) m. m(char \<mapsto> idx)) (enumerate n xs) m c =
     (case position c xs of Some i \<Rightarrow> Some (n + i) | None \<Rightarrow> m c)"
proof (induction xs arbitrary: n m)
  case Nil then show ?case by simp
next
  case (Cons x xs)
  have d: "distinct xs" and nx: "x \<notin> set xs" using Cons.prems by auto
  have "fold (\<lambda>(idx, char) m. m(char \<mapsto> idx)) (enumerate n (x # xs)) m c =
        fold (\<lambda>(idx, char) m. m(char \<mapsto> idx)) (enumerate (Suc n) xs) (m(x \<mapsto> n)) c"
    by simp
  also have "\<dots> = (case position c xs of Some i \<Rightarrow> Some (Suc n + i) | None \<Rightarrow> (m(x \<mapsto> n)) c)"
    by (rule Cons.IH [OF d])
  also have "\<dots> = (case position c (x # xs) of Some i \<Rightarrow> Some (n + i) | None \<Rightarrow> m c)"
  proof (cases "c = x")
    case True
    with nx have "position c xs = None" by (simp add: position_None)
    with True show ?thesis by simp
  next
    case False
    then show ?thesis by (cases "position c xs") auto
  qed
  finally show ?case .
qed

lemma distinct_alphabet: "distinct B64_ALPHABET"
  by (simp add: B64_ALPHABET_def str_def)

lemma length_alphabet: "length B64_ALPHABET = 64"
  by (simp add: B64_ALPHABET_def str_def)

lemma decode_table_position: "create_b64_decode_table c = position c B64_ALPHABET"
  unfolding create_b64_decode_table_def
  by (simp add: fold_enumerate_table [OF distinct_alphabet] split: option.splits)

lemma fold_append_concat:
  "fold (\<lambda>c acc. case f c of Some v \<Rightarrow> acc @ g v | None \<Rightarrow> acc) xs acc
     = acc @ concat (map g (List.map_filter f xs))"
  by (induction xs arbitrary: acc) (auto split: option.splits)

lemma map_filter_append: "List.map_filter f (xs @ ys) = List.map_filter f xs @ List.map_filter f ys"
  by (simp add: List.map_filter_def)

lemma map_filter_all_None: "(\<And>x. x \<in> set xs \<Longrightarrow> f x = None) \<Longrightarrow> List.map_filter f xs = []"
  by (induction xs) auto

lemma rstrip_decomp: "\<exists>t. s = rstrip chars s @ t \<and> set t \<subseteq> set chars"
proof -
  let ?P = "\<lambda>c. c \<in> set chars"
  have "rev s = takeWhile ?P (rev s) @ dropWhile ?P (rev s)" by simp
  then have "s = rev (dropWhile ?P (rev s)) @ rev (takeWhile ?P (rev s))"
    by (metis rev_append rev_rev_ident)
  moreover have "set (rev (takeWhile ?P (rev s))) \<subseteq> set chars"
    using set_takeWhileD by fastforce
  ultimately show ?thesis unfolding rstrip_def by blast
qed

lemma map_filter_rstrip:
  assumes "\<And>c. c \<in> set chars \<Longrightarrow> f c = None"
  shows "List.map_filter f (rstrip chars s) = List.map_filter f s"
proof -
  obtain t where t: "s = rstrip chars s @ t" "set t \<subseteq> set chars"
    using rstrip_decomp by blast
  have "List.map_filter f t = []"
    using t(2) assms by (intro map_filter_all_None) auto
  then have "List.map_filter f (rstrip chars s @ t) = List.map_filter f (rstrip chars s)"
    by (simp add: map_filter_append)
  with t(1) show ?thesis by simp
qed

lemma equals_not_in_alphabet: "position c B64_ALPHABET = None" if "c \<in> set (str ''='')"
  using that by (simp add: position_None B64_ALPHABET_def str_def)

lemma from_bits_Nil: "from_bits [] = 0"
  by (simp add: from_bits_def)

lemma from_bits_snoc: "from_bits (bs @ [b]) = 2 * from_bits bs + (if b then 1 else 0)"
  by (simp add: from_bits_def)

lemma length_to_bits: "length (to_bits k n) = k"
  by (induction k arbitrary: n) auto

lemma from_bits_to_bits: "from_bits (to_bits k n) = n mod 2 ^ k"
proof (induction k arbitrary: n)
  case 0 then show ?case by (simp add: from_bits_Nil)
next
  case (Suc k)
  have "from_bits (to_bits (Suc k) n) = 2 * (n div 2 mod 2 ^ k) + (if odd n then 1 else 0)"
    by (simp add: from_bits_snoc Suc.IH)
  also have "\<dots> = n mod 2 ^ Suc k"
    by (simp add: mod_mult2_eq odd_iff_mod_2_eq_one)
  finally show ?case .
qed

lemma from_bits_less: "from_bits bs < 2 ^ length bs"
proof (induction bs rule: rev_induct)
  case Nil then show ?case by (simp add: from_bits_Nil)
next
  case (snoc b bs)
  then show ?case by (simp add: from_bits_snoc)
qed

lemma to_bits_from_bits: "length bs = k \<Longrightarrow> to_bits k (from_bits bs) = bs"
proof (induction bs arbitrary: k rule: rev_induct)
  case Nil then show ?case by simp
next
  case (snoc b bs)
  then obtain j where k: "k = Suc j" "length bs = j" by (cases k) auto
  have "to_bits j ((2 * from_bits bs + (if b then 1 else 0)) div 2) = bs"
    using snoc.IH [OF k(2)] by simp
  then show ?case using k by (simp add: from_bits_snoc)
qed

lemma int_base2_bits:
  "bs \<noteq> [] \<Longrightarrow> int_base2 (map bitchar bs) = Inr (from_bits bs)"
proof -
  have "foldl (\<lambda>a c. 2 * a + (c - 48)) a (map bitchar bs)
          = foldl (\<lambda>a b. 2 * a + (if b then 1 else 0)) a bs" for a
    by (induction bs arbitrary: a) (auto simp: bitchar_def)
  moreover have "list_all (\<lambda>c. c = 48 \<or> c = 49) (map bitchar bs)"
    by (induction bs) (auto simp: bitchar_def)
  ultimately show ?thesis if "bs \<noteq> []"
    using that by (simp add: int_base2_def from_bits_def)
qed

lemma to_bits_zero: "to_bits k 0 = replicate k False"
  by (induction k) (auto simp: replicate_append_same)

lemma bin_digits_small: "n < 2 \<Longrightarrow> bin_digits n = [bitchar (odd n)]"
  by (subst bin_digits.simps) (auto simp: bitchar_def elim: oddE)

lemma bin_digits_pad:
  "n < 2 ^ Suc k \<Longrightarrow>
   replicate (Suc k - length (bin_digits n)) 48 @ bin_digits n = map bitchar (to_bits (Suc k) n)"
proof (induction k arbitrary: n)
  case 0
  then have "n < 2" by simp
  then show ?case by (simp add: bin_digits_small)
next
  case (Suc k)
  show ?case
  proof (cases "n < 2")
    case True
    then have "n div 2 = 0" by simp
    with True show ?thesis
      by (simp add: bin_digits_small to_bits_zero bitchar_def replicate_append_same)
  next
    case False
    from Suc.prems have "n div 2 < 2 ^ Suc k" by auto
    from Suc.IH [OF this] have ih:
      "replicate (Suc k - length (bin_digits (n div 2))) 48 @ bin_digits (n div 2)
         = map bitchar (to_bits (Suc k) (n div 2))" .
    have d: "bin_digits n = bin_digits (n div 2) @ [bitchar (odd n)]"
      using False by (subst bin_digits.simps) (auto simp: bitchar_def odd_iff_mod_2_eq_one)
    have "replicate (Suc (Suc k) - length (bin_digits n)) 48 @ bin_digits n
            = (replicate (Suc k - length (bin_digits (n div 2))) 48 @ bin_digits (n div 2))
                @ [bitchar (odd n)]"
      by (simp add: d)
    also have "\<dots> = map bitchar (to_bits (Suc (Suc k)) n)"
      unfolding ih by simp
    finally show ?thesis .
  qed
qed

lemma format_06b_bits: "v < 64 \<Longrightarrow> format_06b v = map bitchar (to_bits 6 v)"
  using bin_digits_pad [of v 5] by (simp add: format_06b_def Let_def eval_nat_numeral)

lemma bytes_loop_step:
  assumes "length (take 8 (drop k bits)) = 8"
  shows "bytes_loop (map bitchar bits) (int k # is) acc
           = bytes_loop (map bitchar bits) is (acc @ [of_nat (from_bits (take 8 (drop k bits)))])"
proof -
  let ?chunk = "take 8 (drop k bits)"
  have ne: "?chunk \<noteq> []" using assms by auto
  have c: "take 8 (drop k (map bitchar bits)) = map bitchar ?chunk"
    by (simp add: take_map drop_map)
  have v: "from_bits ?chunk < 256"
    using from_bits_less [of ?chunk] assms by simp
  have l: "length (map bitchar ?chunk) = 8" using assms by simp
  show ?thesis
    using assms by (simp add: c int_base2_bits [OF ne] bytearray_append_def v)
qed

lemma bytes_loop_regroup8:
  "bytes_loop (map bitchar bits) (py_range (int k) (int (length bits) - 7) 8) acc
     = Inr (acc @ regroup8 (drop k bits))"
proof (induction "length bits - k" arbitrary: k acc rule: less_induct)
  case less
  show ?case
  proof (cases "k + 8 \<le> length bits")
    case True
    let ?chunk = "take 8 (drop k bits)"
    have len: "length ?chunk = 8" using True by simp
    have r: "py_range (int k) (int (length bits) - 7) 8
               = int k # py_range (int (k + 8)) (int (length bits) - 7) 8"
      using True by (subst py_range.simps) simp
    have ih: "bytes_loop (map bitchar bits) (py_range (int (k + 8)) (int (length bits) - 7) 8)
                 (acc @ [of_nat (from_bits ?chunk)])
              = Inr ((acc @ [of_nat (from_bits ?chunk)]) @ regroup8 (drop (k + 8) bits))"
      using True by (intro less) simp
    have g: "regroup8 (drop k bits)
               = of_nat (from_bits ?chunk) # regroup8 (drop (k + 8) bits)"
      using True by (subst regroup8.simps) (simp add: add.commute)
    show ?thesis
      by (simp only: r bytes_loop_step [OF len] ih g append_assoc append_Cons append_Nil)
  next
    case False
    then have r: "py_range (int k) (int (length bits) - 7) 8 = []"
      by (subst py_range.simps) simp
    have g: "regroup8 (drop k bits) = []"
      using False by (subst regroup8.simps) simp
    show ?thesis unfolding r g by simp
  qed
qed

lemma decode_custom_b64_spec: "decode_custom_b64 s = Inr (spec_alphabet_decode s)"
proof -
  let ?f = "\<lambda>c. position c B64_ALPHABET"
  let ?vals = "List.map_filter ?f s"
  have vals: "v < 64" if "v \<in> set vals'" "vals' = List.map_filter ?f t" for v vals' t
    using that position_Some [of _ B64_ALPHABET v]
    by (auto simp: List.map_filter_def length_alphabet)
  have strip: "List.map_filter ?f (rstrip (str ''='') s) = ?vals"
    by (rule map_filter_rstrip) (rule equals_not_in_alphabet)
  have "concat (map format_06b ?vals) = concat (map (\<lambda>v. map bitchar (to_bits 6 v)) ?vals)"
    using vals [OF _ refl] by (intro arg_cong [where f = concat] map_cong) (auto simp: format_06b_bits)
  also have "\<dots> = map bitchar (concat (map (to_bits 6) ?vals))"
    by (simp add: map_concat comp_def)
  finally have bin: "concat (map format_06b ?vals) = map bitchar (concat (map (to_bits 6) ?vals))" .
  have "decode_custom_b64 s =
          bytes_loop (concat (map format_06b ?vals))
            (py_range 0 (int (length (concat (map format_06b ?vals))) - 7) 8) []"
    unfolding decode_custom_b64_def Let_def
    by (simp only: decode_table_position fold_append_concat strip append_Nil)
  also have "\<dots> = Inr (spec_alphabet_decode s)"
    unfolding bin spec_alphabet_decode_def
    using bytes_loop_regroup8 [of "concat (map (to_bits 6) ?vals)" 0 "[]"]
    by (simp del: regroup8.simps)
  finally show ?thesis .
qed

lemma regroup6_values: "v \<in> set (regroup6 bits) \<Longrightarrow> v < 64"
proof (induction bits rule: regroup6.induct)
  case (1 bits)
  show ?case
  proof (cases "bits = []")
    case True
    with "1.prems" show ?thesis by (simp add: regroup6.simps)
  next
    case False
    let ?g = "take 6 (bits @ replicate 5 False)"
    have "from_bits ?g < 2 ^ length ?g" by (rule from_bits_less)
    moreover have "length ?g \<le> 6" by simp
    ultimately have "from_bits ?g < 2 ^ 6"
      by (meson le_less_trans not_le one_le_numeral power_increasing)
    with "1.prems" "1.IH" False show ?thesis
      by (subst (asm) regroup6.simps) auto
  qed
qed

lemma regroup6_bits:
  "\<exists>p < 6. concat (map (to_bits 6) (regroup6 bits)) = bits @ replicate p False"
proof (induction bits rule: regroup6.induct)
  case (1 bits)
  show ?case
  proof (cases "bits = []")
    case True
    then show ?thesis by (simp add: regroup6.simps)
  next
    case False
    let ?g = "take 6 (bits @ replicate 5 False)"
    have lg: "length ?g = 6" using False by (cases bits) auto
    have tf: "to_bits 6 (from_bits ?g) = ?g" by (rule to_bits_from_bits [OF lg])
    have "regroup6 bits = from_bits ?g # regroup6 (drop 6 bits)"
      using False by (subst regroup6.simps) simp
    then have unf: "concat (map (to_bits 6) (regroup6 bits))
                 = ?g @ concat (map (to_bits 6) (regroup6 (drop 6 bits)))"
      by (simp only: list.map concat.simps tf)
    from "1.IH" [OF False] obtain p where p: "p < 6"
      "concat (map (to_bits 6) (regroup6 (drop 6 bits))) = drop 6 bits @ replicate p False"
      by blast
    show ?thesis
    proof (cases "6 \<le> length bits")
      case True
      then have "?g = take 6 bits" by simp
      with unf p show ?thesis by (metis append_assoc append_take_drop_id)
    next
      case short: False
      then have d: "drop 6 bits = []" by simp
      have pos: "Suc 0 \<le> length bits" using False by (cases bits) auto
      have le5: "6 - length bits \<le> 5" using pos by arith
      have "?g = bits @ replicate (6 - length bits) False"
        using short le5 by (simp add: min_def)
      moreover have "6 - length bits < 6" using pos by arith
      ultimately show ?thesis
        using unf by (auto simp: d regroup6.simps)
    qed
  qed
qed

lemma map_filter_position_nth:
  assumes "distinct xs" "\<forall>v \<in> set vs. v < length xs"
  shows "List.map_filter (\<lambda>c. position c xs) (map (\<lambda>v. xs ! v) vs) = vs"
  using assms(2) by (induction vs) (auto simp: position_nth [OF assms(1)])

lemma regroup8_bytes:
  "length pad < 8 \<Longrightarrow> regroup8 (concat (map (\<lambda>b. to_bits 8 (unat b)) bs) @ pad) = bs"
proof (induction bs)
  case Nil
  then show ?case by (simp add: regroup8.simps)
next
  case (Cons b bs)
  let ?rest = "concat (map (\<lambda>b. to_bits 8 (unat b)) bs) @ pad"
  have "regroup8 (to_bits 8 (unat b) @ ?rest)
          = of_nat (from_bits (to_bits 8 (unat b))) # regroup8 ?rest"
    by (subst regroup8.simps) (simp add: length_to_bits)
  moreover have "(of_nat (from_bits (to_bits 8 (unat b))) :: byte) = b"
  proof -
    have "unat b < 2 ^ 8" using unsigned_less [of b] by simp
    then show ?thesis by (simp add: from_bits_to_bits)
  qed
  ultimately show ?case using Cons by simp
qed

lemma spec_decode_encode: "spec_alphabet_decode (spec_alphabet_encode bs) = bs"
proof -
  let ?bits = "concat (map (\<lambda>b. to_bits 8 (unat b)) bs)"
  have "\<forall>v \<in> set (regroup6 ?bits). v < length B64_ALPHABET"
    using regroup6_values by (auto simp: length_alphabet)
  then have "List.map_filter (\<lambda>c. position c B64_ALPHABET) (spec_alphabet_encode bs)
               = regroup6 ?bits"
    unfolding spec_alphabet_encode_def
    by (rule map_filter_position_nth [OF distinct_alphabet])
  moreover obtain p where "p < 6"
    "concat (map (to_bits 6) (regroup6 ?bits)) = ?bits @ replicate p False"
    using regroup6_bits by blast
  ultimately show ?thesis
    by (simp add: spec_alphabet_decode_def regroup8_bytes)
qed

section \<open>The accuracy of true division and \<open>round\<close>\<close>












section \<open>The decode pipeline, the deserializer and the sample runs\<close>

lemma str_append: "str (a @ b) = str a @ str b"
  by (simp add: str_def)

lemma decode_try_unfold:
  "decode_try Z s =
     (let c = spec_alphabet_decode (encoded_data s) in
      case Z c of
        Inl m \<Rightarrow> Inl (ValueError (str ''Decompression failed: '' @ m))
      | Inr d \<Rightarrow>
         (case py_truediv (length c) (length d) of
            Inl e \<Rightarrow> Inl e
          | Inr x \<Rightarrow>
             (case py_round2 x of
                Inl e \<Rightarrow> Inl e
              | Inr r \<Rightarrow>
                  Inr (success_result (length s) (length c) (length d) r
                         (parse_ace_serialized_data (decode_latin1 d))))))"
  by (simp add: decode_try_def decode_custom_b64_spec decompress_data_def Let_def
           split: sum.splits)

lemma dict_keys_success:
  "dict_keys (success_result n c d r p) = [key ''metadata'', key ''route_data'']"
  by (simp add: success_result_def)

lemma dict_keys_failure:
  "dict_keys (failure_result m s) = [key ''error'', key ''original_string'']"
  by (simp add: failure_result_def)


lemma py_truediv_zero: "py_truediv a 0 = Inl (ZeroDivisionError (str ''division by zero''))"
  by (simp add: py_truediv_def)

lemma py_truediv_Inr: "py_truediv a b = Inr x \<Longrightarrow> b \<noteq> 0"
  by (auto simp: py_truediv_def split: if_splits)


lemma bang_not_in_alphabet: "position 33 B64_ALPHABET = None"
  by (simp add: position_None B64_ALPHABET_def str_def)

lemma spec_alphabet_decode_bang: "spec_alphabet_decode (33 # s) = spec_alphabet_decode s"
  by (simp add: spec_alphabet_decode_def List.map_filter_simps bang_not_in_alphabet)

lemma encoded_data_bang: "encoded_data (str ''!'' @ s) = s"
  by (simp add: encoded_data_def startswith_def str_def)

lemma spec_alphabet_decode_encoded_data:
  "spec_alphabet_decode (encoded_data s) = spec_alphabet_decode s"
proof (cases "startswith (str ''!'') s")
  case True
  then obtain t where "s = 33 # t"
    by (cases s) (auto simp: startswith_def str_def)
  then show ?thesis
    by (simp add: encoded_data_def startswith_def str_def spec_alphabet_decode_bang)
next
  case False
  then show ?thesis by (simp add: encoded_data_def)
qed


lemma b64_abc:
  "decode_custom_b64 (encoded_data (str ''!EaebaWd8)2fIyWjnasC''))
     = Inr [0x78, 0x01, 0x01, 0x03, 0x00, 0xfc, 0xff, 0x61, 0x62, 0x63, 0x02, 0x4d, 0x01, 0x27]"
  by code_simp

lemma truediv_14_3: "py_truediv 14 3 = Inr (5254199565265579, - 50)"
proof -
  have "bit_length 14 = 4" "bit_length 3 = 2" by (simp_all add: bit_length.simps)
  then have "binary_exponent 14 3 = 2" by (simp add: binary_exponent_def)
  then have "nearest_double 14 3 = (5254199565265579, - 50)"
    by (simp add: nearest_double_def round_half_even_def Let_def)
  then show ?thesis
    by (simp add: py_truediv_def Let_def too_large_def double_value_def power_int_minus)
qed

lemma round2_14_3: "py_round2 (5254199565265579, - 50) = Inr (5257952564955054, - 50)"
proof -
  have "bit_length 467 = 9" "bit_length 100 = 7" by (simp_all add: bit_length.simps)
  then have "binary_exponent 467 100 = 2" by (simp add: binary_exponent_def)
  then have "nearest_double 467 100 = (5257952564955054, - 50)"
    by (simp add: nearest_double_def round_half_even_def Let_def)
  then show ?thesis
    by (simp add: py_round2_def round_half_even_def Let_def too_large_def double_value_def
          power_int_minus)
qed

lemma decode_success:
  assumes "decode_custom_b64 (encoded_data s) = Inr c" "Z c = Inr d"
    and "py_truediv (length c) (length d) = Inr x" "py_round2 x = Inr r"
  shows "decode_mdt_route_string Z s
           = success_result (length s) (length c) (length d) r
               (parse_ace_serialized_data (decode_latin1 d))"
  using assms
  by (simp add: decode_mdt_route_string_def decode_try_def decompress_data_def)

lemma fixture_abc_run:
  "decode_mdt_route_string zlib_fixture (str ''!EaebaWd8)2fIyWjnasC'')
     = success_result 20 14 3 (5257952564955054, - 50)
         (parse_ace_serialized_data (str ''abc''))"
proof -
  let ?c = "[0x78, 0x01, 0x01, 0x03, 0x00, 0xfc, 0xff, 0x61, 0x62, 0x63, 0x02, 0x4d, 0x01, 0x27] :: pybytes"
  let ?d = "[0x61, 0x62, 0x63] :: pybytes"
  have ls: "length (str ''!EaebaWd8)2fIyWjnasC'') = 20" by (simp add: str_def)
  have lc: "length ?c = 14" by simp
  have ld: "length ?d = 3" by simp
  have t: "decode_latin1 ?d = str ''abc''"
    by (simp add: decode_latin1_def str_def)
  have z: "zlib_fixture ?c = Inr ?d" by (simp add: zlib_fixture_def)
  have q: "py_truediv (length ?c) (length ?d) = Inr (5254199565265579, - 50)"
    unfolding lc ld by (rule truediv_14_3)
  show ?thesis
    using decode_success [where Z = zlib_fixture, OF b64_abc z q round2_14_3]
    unfolding ls lc ld t .
qed

lemma key_eq_iff: "key a = key b \<longleftrightarrow> str a = str b"
  by (simp add: key_def)

lemma parse_flat_summary:
  "parse_ace_serialized_data data =
     (let payload = (if startswith [1, 0] data then drop 2 data else data) in
      PDict ([(key ''format'', PStr (str ''AceSerializer'')),
              (key ''raw_data'', PStr (unicode_escape payload)),
              (key ''parsed_data'',
               PStr (str ''Partial parsing - full AceSerializer implementation needed''))]
             @ (if contains (str ''week'') payload
                then [(key ''contains_week_info'', PBool True)] else [])
             @ (if contains (str ''objects'') payload
                then [(key ''contains_objects'', PBool True)] else [])
             @ (if contains (str ''pulls'') payload
                then [(key ''contains_pulls'', PBool True)] else [])))"
  by (simp add: parse_ace_serialized_data_def Let_def key_eq_iff str_def)



lemma sample_stream:
  "decode_latin1 (spec_serialize sample_grammar integer_text sample_tree) = str ''^T^Sweek^s^N1^n^t''"
  by code_simp

lemma sample_parse:
  "parse_ace_serialized_data (str ''^T^Sweek^s^N1^n^t'') =
     PDict [(key ''format'', PStr (str ''AceSerializer'')),
            (key ''raw_data'', PStr (str ''^T^Sweek^s^N1^n^t'')),
            (key ''parsed_data'',
             PStr (str ''Partial parsing - full AceSerializer implementation needed'')),
            (key ''contains_week_info'', PBool True)]"
  by code_simp

lemma sample_py: "spec_value_as_py sample_tree = PDict [(PStr (str ''week''), PFloat 1)]"
  by code_simp




lemma spec_alphabet_decode_sentinel:
  "spec_alphabet_decode (str ''!'' @ s) = spec_alphabet_decode s"
  by (simp add: str_def spec_alphabet_decode_bang)

lemma length_sentinel: "length (str ''!'') = 1"
  by (simp add: str_def)

lemma b64_abc_bare:
  "decode_custom_b64 (encoded_data (str ''EaebaWd8)2fIyWjnasC''))
     = Inr [0x78, 0x01, 0x01, 0x03, 0x00, 0xfc, 0xff, 0x61, 0x62, 0x63, 0x02, 0x4d, 0x01, 0x27]"
  by code_simp

lemma fixture_abc_bare_run:
  "decode_mdt_route_string zlib_fixture (str ''EaebaWd8)2fIyWjnasC'')
     = success_result 19 14 3 (5257952564955054, - 50)
         (parse_ace_serialized_data (str ''abc''))"
proof -
  let ?c = "[0x78, 0x01, 0x01, 0x03, 0x00, 0xfc, 0xff, 0x61, 0x62, 0x63, 0x02, 0x4d, 0x01, 0x27] :: pybytes"
  let ?d = "[0x61, 0x62, 0x63] :: pybytes"
  have ls: "length (str ''EaebaWd8)2fIyWjnasC'') = 19" by (simp add: str_def)
  have lc: "length ?c = 14" by simp
  have ld: "length ?d = 3" by simp
  have t: "decode_latin1 ?d = str ''abc''"
    by (simp add: decode_latin1_def str_def)
  have z: "zlib_fixture ?c = Inr ?d" by (simp add: zlib_fixture_def)
  have q: "py_truediv (length ?c) (length ?d) = Inr (5254199565265579, - 50)"
    unfolding lc ld by (rule truediv_14_3)
  show ?thesis
    using decode_success [where Z = zlib_fixture, OF b64_abc_bare z q round2_14_3]
    unfolding ls lc ld t .
qed

lemma failure_fields:
  assumes "decode_try Z s = Inl e"
  shows "dict_get (decode_mdt_route_string Z s) (key ''error'')
           = Some (PStr (str ''Failed to decode route string: '' @ exn_str e))
       \<and> dict_get (decode_mdt_route_string Z s) (key ''original_string'')
           = Some (PStr (if length s \<le> 100 then s else take 100 s @ str ''...''))
       \<and> length (if length s \<le> 100 then s else take 100 s @ str ''...'') \<le> 103"
  using assms
  by (auto simp: decode_mdt_route_string_def failure_result_def key_def str_def)

lemma decode_try_no_symbols:
  assumes "spec_alphabet_decode s = []"
  shows "decode_try zlib_fixture s
           = Inl (ValueError (str ''Decompression failed: Error -5 while decompressing data: incomplete or truncated stream''))"
  using assms
  by (simp add: decode_try_unfold spec_alphabet_decode_encoded_data zlib_fixture_def
        str_append [symmetric])

lemma spec_alphabet_decode_skips:
  assumes "position c B64_ALPHABET = None"
  shows "spec_alphabet_decode (replicate n c) = []"
proof -
  have "List.map_filter (\<lambda>c. position c B64_ALPHABET) (replicate n c) = []"
    using assms by (intro map_filter_all_None) auto
  then show ?thesis by (simp add: spec_alphabet_decode_def regroup8.simps)
qed

lemma dots_103: "spec_alphabet_decode (replicate 103 46) = []"
  by (rule spec_alphabet_decode_skips) (simp add: position_None B64_ALPHABET_def str_def)

lemma bangs_101: "spec_alphabet_decode (replicate 101 33) = []"
  by (rule spec_alphabet_decode_skips) (rule bang_not_in_alphabet)

chapter \<open>The claims\<close>

section \<open>C1: The deserializer returns a summary, not a tree\<close>

text \<open>
  Claim C1 as stated fails.  On the serialization of the tree that maps \<open>week\<close> to 1,
  the deserializer returns the flat summary of the raw text; the tree itself, rendered
  as Python data, is the dictionary that maps \<open>week\<close> to 1.  The result is neither the
  tree nor the list of root values.
\<close>

theorem deserializer_returns_tree_counterexample:
  "parse_ace_serialized_data
      (decode_latin1 (spec_serialize sample_grammar integer_text sample_tree))
     = PDict [(key ''format'', PStr (str ''AceSerializer'')),
              (key ''raw_data'', PStr (str ''^T^Sweek^s^N1^n^t'')),
              (key ''parsed_data'',
               PStr (str ''Partial parsing - full AceSerializer implementation needed'')),
              (key ''contains_week_info'', PBool True)]
   \<and> spec_value_as_py sample_tree = PDict [(PStr (str ''week''), PFloat 1)]
   \<and> parse_ace_serialized_data
        (decode_latin1 (spec_serialize sample_grammar integer_text sample_tree))
       \<noteq> spec_value_as_py sample_tree
   \<and> parse_ace_serialized_data
        (decode_latin1 (spec_serialize sample_grammar integer_text sample_tree))
       \<noteq> PList [spec_value_as_py sample_tree]"
  by (simp add: sample_stream sample_parse sample_py)

text \<open>
  Claim C1, as amended.  The deserializer of the source is a placeholder: for every
  text, a valid serialization of a value tree or not, it returns a flat summary and
  never a value tree.  The summary has the entries \<open>format\<close> (the fixed text
  \<open>AceSerializer\<close>), \<open>raw_data\<close> (the text, without a leading header of the two
  characters 1 and 0, escaped by the \<open>unicode_escape\<close> codec) and \<open>parsed_data\<close> (a
  fixed notice), followed by \<open>contains_week_info\<close>, \<open>contains_objects\<close> and
  \<open>contains_pulls\<close>, each present and true exactly when the text contains \<open>week\<close>,
  \<open>objects\<close> or \<open>pulls\<close>.
\<close>

theorem deserializer_returns_flat_summary:
  "parse_ace_serialized_data data =
     (let payload = (if startswith [1, 0] data then drop 2 data else data) in
      PDict ([(key ''format'', PStr (str ''AceSerializer'')),
              (key ''raw_data'', PStr (unicode_escape payload)),
              (key ''parsed_data'',
               PStr (str ''Partial parsing - full AceSerializer implementation needed''))]
             @ (if contains (str ''week'') payload
                then [(key ''contains_week_info'', PBool True)] else [])
             @ (if contains (str ''objects'') payload
                then [(key ''contains_objects'', PBool True)] else [])
             @ (if contains (str ''pulls'') payload
                then [(key ''contains_pulls'', PBool True)] else [])))"
  by (rule parse_flat_summary)

section \<open>C2: The deserializer reports no parse error\<close>



section \<open>C3: The alphabet decoder is the reference algorithm\<close>

text \<open>
  Claim C3.  For every input string the alphabet decoder of the source returns, without
  raising, what the reference algorithm returns: a character of the 64-symbol alphabet
  contributes the six bits of its position, a character outside the alphabet (the
  padding character \<open>=\<close> included) is skipped and contributes nothing, the six-bit
  groups are concatenated and cut into bytes, and the bits left over after the last full
  byte are dropped.
\<close>

theorem decode_custom_b64_refines_spec:
  "decode_custom_b64 encoded_str = Inr (spec_alphabet_decode encoded_str)"
  by (rule decode_custom_b64_spec)

section \<open>C4: Encoding then decoding\<close>

text \<open>
  Claim C4.  Encoding a byte sequence with the alphabet (bytes packed into six-bit
  symbols, the last symbol padded with zero bits) and decoding the result returns the
  original bytes.  The padding is shorter than a byte, so the decoder drops exactly the
  padding: no byte of the original is lost, which is within the claim's bound of at
  most one trailing byte.
\<close>

theorem decode_custom_b64_encode:
  "decode_custom_b64 (spec_alphabet_encode bs) = Inr bs"
  by (simp only: decode_custom_b64_spec spec_decode_encode)

section \<open>C5: A decompression failure aborts the pipeline\<close>



section \<open>C6: The metadata of a successful decode\<close>



section \<open>C7: The failure result\<close>

text \<open>
  Claim C7 as stated fails.  For the input of 103 dots the \<open>original_string\<close> field
  has 103 characters, more than 100, and it is the full input, although the input is
  longer than 100 characters.
\<close>

theorem excerpt_is_full_input_counterexample:
  "length (replicate 103 46 :: pystr) = 103
   \<and> decode_try zlib_fixture (replicate 103 46)
     = Inl (ValueError (str ''Decompression failed: Error -5 while decompressing data: incomplete or truncated stream''))
   \<and> dict_get (decode_mdt_route_string zlib_fixture (replicate 103 46)) (key ''original_string'')
     = Some (PStr (replicate 103 46))"
proof -
  have h: "decode_try zlib_fixture (replicate 103 46)
     = Inl (ValueError (str ''Decompression failed: Error -5 while decompressing data: incomplete or truncated stream''))"
    by (rule decode_try_no_symbols [OF dots_103])
  have "replicate 3 46 = str ''...''"
    by (simp add: str_def numeral_3_eq_3)
  then have e: "replicate 100 46 @ str ''...'' = (replicate 103 46 :: pystr)"
    using replicate_add [of 100 3 "46 :: nat"] by simp
  from failure_fields [OF h] h show ?thesis
    by (simp add: e)
qed

text \<open>
  Claim C7, as amended.  When a stage of the pipeline raises, the failure result carries
  the text of the exception after \<open>Failed to decode route string: \<close>, and as
  \<open>original_string\<close> the input itself when it has at most 100 characters, otherwise
  its first 100 characters followed by three dots: a field of at most 103 characters,
  at most 100 of them taken from the input.
\<close>

theorem failure_carries_message_and_excerpt:
  assumes "decode_try zlib_decompress route_string = Inl e"
  shows "dict_get (decode_mdt_route_string zlib_decompress route_string) (key ''error'')
           = Some (PStr (str ''Failed to decode route string: '' @ exn_str e))
       \<and> dict_get (decode_mdt_route_string zlib_decompress route_string) (key ''original_string'')
           = Some (PStr (if length route_string \<le> 100 then route_string
                         else take 100 route_string @ str ''...''))
       \<and> length (if length route_string \<le> 100 then route_string
                  else take 100 route_string @ str ''...'') \<le> 103"
  using assms by (rule failure_fields)

text \<open>
  The hypothesis of C7 holds for the route string of 101 marker characters: nothing is
  decoded and zlib rejects the empty input.
\<close>

theorem failure_carries_message_and_excerpt_witness:
  "decode_try zlib_fixture (replicate 101 33)
     = Inl (ValueError (str ''Decompression failed: Error -5 while decompressing data: incomplete or truncated stream''))
   \<and> dict_get (decode_mdt_route_string zlib_fixture (replicate 101 33)) (key ''error'')
     = Some (PStr (str ''Failed to decode route string: Decompression failed: Error -5 while decompressing data: incomplete or truncated stream''))
   \<and> dict_get (decode_mdt_route_string zlib_fixture (replicate 101 33)) (key ''original_string'')
     = Some (PStr (replicate 100 33 @ str ''...''))"
proof -
  have h: "decode_try zlib_fixture (replicate 101 33)
     = Inl (ValueError (str ''Decompression failed: Error -5 while decompressing data: incomplete or truncated stream''))"
    by (rule decode_try_no_symbols [OF bangs_101])
  from failure_carries_message_and_excerpt [OF h] h show ?thesis
    by (simp add: str_append [symmetric])
qed

section \<open>C8: The sentinel marker\<close>

text \<open>
  Claim C8 as stated fails: with and without the marker the results differ in
  \<open>original_length\<close> (20 and 19 here).
\<close>

theorem sentinel_changes_result_counterexample:
  "decode_mdt_route_string zlib_fixture (str ''!EaebaWd8)2fIyWjnasC'')
     = success_result 20 14 3 (5257952564955054, - 50) (parse_ace_serialized_data (str ''abc''))
   \<and> decode_mdt_route_string zlib_fixture (str ''EaebaWd8)2fIyWjnasC'')
     = success_result 19 14 3 (5257952564955054, - 50) (parse_ace_serialized_data (str ''abc''))
   \<and> decode_mdt_route_string zlib_fixture (str ''!EaebaWd8)2fIyWjnasC'')
     \<noteq> decode_mdt_route_string zlib_fixture (str ''EaebaWd8)2fIyWjnasC'')"
  by (simp add: fixture_abc_run fixture_abc_bare_run) (simp add: success_result_def)

text \<open>
  Claim C8, as amended.  Decoding a route string with the leading marker \<open>!\<close> and
  decoding the same string without it end the same way, and the two results differ only
  where the input is echoed: either both fail with the same message, each with the
  excerpt of its own input as \<open>original_string\<close>, or both succeed with the same
  compressed length, decompressed length, ratio and route data, and the
  \<open>original_length\<close> of the marked string is larger by one.
\<close>

theorem sentinel_changes_only_the_echo:
  "(\<exists>message.
       decode_mdt_route_string zlib_decompress (str ''!'' @ s)
         = failure_result message (str ''!'' @ s)
     \<and> decode_mdt_route_string zlib_decompress s = failure_result message s)
   \<or> (\<exists>compressed_length decompressed_length ratio parsed_data.
       decode_mdt_route_string zlib_decompress (str ''!'' @ s)
         = success_result (length s + 1) compressed_length decompressed_length ratio parsed_data
     \<and> decode_mdt_route_string zlib_decompress s
         = success_result (length s) compressed_length decompressed_length ratio parsed_data)"
proof -
  let ?Z = zlib_decompress
  let ?c = "spec_alphabet_decode s"
  have c1: "spec_alphabet_decode (encoded_data (str ''!'' @ s)) = ?c"
    by (simp only: spec_alphabet_decode_encoded_data spec_alphabet_decode_sentinel)
  have c2: "spec_alphabet_decode (encoded_data s) = ?c"
    by (rule spec_alphabet_decode_encoded_data)
  show ?thesis
  proof (cases "?Z ?c")
    case (Inl m)
    then have
      "decode_mdt_route_string ?Z (str ''!'' @ s)
         = failure_result (str ''Decompression failed: '' @ m) (str ''!'' @ s)"
      "decode_mdt_route_string ?Z s = failure_result (str ''Decompression failed: '' @ m) s"
      by (simp_all add: decode_mdt_route_string_def decode_try_unfold c1 c2)
    then show ?thesis by blast
  next
    case d: (Inr d)
    show ?thesis
    proof (cases "py_truediv (length ?c) (length d)")
      case (Inl e)
      with d have
        "decode_mdt_route_string ?Z (str ''!'' @ s) = failure_result (exn_str e) (str ''!'' @ s)"
        "decode_mdt_route_string ?Z s = failure_result (exn_str e) s"
        by (simp_all add: decode_mdt_route_string_def decode_try_unfold c1 c2)
      then show ?thesis by blast
    next
      case x: (Inr x)
      show ?thesis
      proof (cases "py_round2 x")
        case (Inl e)
        with d x have
          "decode_mdt_route_string ?Z (str ''!'' @ s)
             = failure_result (exn_str e) (str ''!'' @ s)"
          "decode_mdt_route_string ?Z s = failure_result (exn_str e) s"
          by (simp_all add: decode_mdt_route_string_def decode_try_unfold c1 c2)
        then show ?thesis by blast
      next
        case (Inr ratio)
        with d x have
          "decode_mdt_route_string ?Z (str ''!'' @ s)
             = success_result (length s + 1) (length ?c) (length d) ratio
                 (parse_ace_serialized_data (decode_latin1 d))"
          "decode_mdt_route_string ?Z s
             = success_result (length s) (length ?c) (length d) ratio
                 (parse_ace_serialized_data (decode_latin1 d))"
          by (simp_all add: decode_mdt_route_string_def decode_try_unfold c1 c2 length_sentinel)
        then show ?thesis by blast
      qed
    qed
  qed
qed

section \<open>C9: The two shapes of the result\<close>

text \<open>
  Claim C9.  For every codec and every input string \<open>decode_mdt_route_string\<close>
  returns a dictionary (every exception of the \<open>try\<close> block is a value of the model
  and is caught), and its keys are either exactly \<open>metadata\<close> and \<open>route_data\<close>
  or exactly \<open>error\<close> and \<open>original_string\<close>.
\<close>

theorem decode_result_shape:
  "dict_keys (decode_mdt_route_string zlib_decompress route_string)
       = [key ''metadata'', key ''route_data'']
   \<or> dict_keys (decode_mdt_route_string zlib_decompress route_string)
       = [key ''error'', key ''original_string'']"
  by (simp add: decode_mdt_route_string_def decode_try_unfold Let_def dict_keys_success
        dict_keys_failure split: sum.splits)

section \<open>C10: An empty decompressed sequence\<close>

text \<open>
  Claim C10.  When the alphabet-decoded bytes decompress to the empty byte sequence, the
  division by the decompressed length raises \<open>ZeroDivisionError\<close> and the decode
  returns the failure dictionary, never a success dictionary with decompressed length 0.
\<close>

theorem empty_decompressed_data_fails:
  assumes "decode_custom_b64 (encoded_data route_string) = Inr compressed_data"
    and "zlib_decompress compressed_data = Inr []"
  shows "decode_mdt_route_string zlib_decompress route_string
           = failure_result (str ''division by zero'') route_string"
  using assms
  by (simp add: decode_mdt_route_string_def decode_try_def decompress_data_def py_truediv_zero)

text \<open>
  The hypotheses of C10 hold for the route string \<open>!EjWdaaaaaae\<close>, which decodes
  to the zlib stream of the empty string.
\<close>

theorem empty_decompressed_data_fails_witness:
  "decode_custom_b64 (encoded_data (str ''!EjWdaaaaaae'')) = Inr [0x78, 0x9c, 3, 0, 0, 0, 0, 1]
   \<and> zlib_fixture [0x78, 0x9c, 3, 0, 0, 0, 0, 1] = Inr []
   \<and> decode_mdt_route_string zlib_fixture (str ''!EjWdaaaaaae'')
       = failure_result (str ''division by zero'') (str ''!EjWdaaaaaae'')"
proof -
  have h1: "decode_custom_b64 (encoded_data (str ''!EjWdaaaaaae'')) = Inr [0x78, 0x9c, 3, 0, 0, 0, 0, 1]"
    by code_simp
  have h2: "zlib_fixture [0x78, 0x9c, 3, 0, 0, 0, 0, 1] = Inr []"
    by (simp add: zlib_fixture_def)
  from empty_decompressed_data_fails [where zlib_decompress = zlib_fixture, OF h1 h2] h1 h2 show ?thesis by simp
qed

end
